theory Spec2Isabelle
  imports Complex_Main "HOL-Library.Sublist"
begin

section \<open>The retry utility of \<open>src/utils/retry.ts\<close>\<close>

subsection \<open>Thrown values and their normalisation\<close>

text \<open>
  An \<open>Error\<close> object is represented by its message, the only property that
  \<open>retry\<close> and \<open>isRetryableError\<close> read. A thrown JavaScript value is either
  such an object or a value that is not \<open>instanceof Error\<close>: a string, \<open>null\<close>,
  \<open>undefined\<close>, a boolean, or any further value. Of a further value only what
  \<open>String(...)\<close> does with it matters: \<open>VOther s\<close> is a value (a number, a plain
  object) that \<open>String\<close> turns into the text \<open>s\<close>; \<open>VNoString t\<close> is a value that has
  no string form, for which \<open>String\<close> throws \<open>t\<close> (for \<open>Object.create(null)\<close> a
  \<open>TypeError\<close>; for an object whose \<open>toString\<close> throws, what that throws).
\<close>

datatype js_error = Error (message: string)

datatype jsval =
    VError js_error
  | VString string
  | VNull
  | VUndefined
  | VBoolean bool
  | VOther string
  | VNoString jsval

text \<open>
  \<open>String(v)\<close>: \<open>Inr\<close> the text, or \<open>Inl\<close> what the conversion throws. On an \<open>Error\<close>
  whose name is \<open>Error\<close> it gives \<open>Error: \<close> and the message.
\<close>

fun String_js :: "jsval \<Rightarrow> jsval + string" where
  "String_js (VError e) = Inr (''Error: '' @ message e)"
| "String_js (VString s) = Inr s"
| "String_js VNull = Inr ''null''"
| "String_js VUndefined = Inr ''undefined''"
| "String_js (VBoolean b) = Inr (if b then ''true'' else ''false'')"
| "String_js (VOther s) = Inr s"
| "String_js (VNoString t) = Inl t"

text \<open>
  Line 40: \<open>error instanceof Error ? error : new Error(String(error))\<close>. The result is
  \<open>Inr\<close> the new value of \<open>lastError\<close>, or \<open>Inl\<close> what \<open>String\<close> throws; the
  expression stands inside the \<open>catch\<close> block, so what it throws leaves \<open>retry\<close>.
\<close>

definition to_Error :: "jsval \<Rightarrow> jsval + js_error" where
  "to_Error error =
     (case error of
        VError e \<Rightarrow> Inr e
      | _ \<Rightarrow> (case String_js error of Inl thrown \<Rightarrow> Inl thrown | Inr s \<Rightarrow> Inr (Error s)))"

subsection \<open>Options\<close>

text \<open>
  \<open>maxAttempts\<close> is compared with the attempt counter and is an integer; the delays and
  the multiplier are JavaScript numbers, taken as reals (\<open>NaN\<close> and the infinities are
  outside the model). The callback \<open>onRetry\<close> may be absent. When it is called it
  either returns (\<open>None\<close>; what it returns is dropped) or throws a value (\<open>Some v\<close>).
\<close>

record RetryOptions =
  maxAttempts :: int
  delayMs :: real
  backoffMultiplier :: real
  maxDelayMs :: real
  onRetry :: "(js_error \<Rightarrow> nat \<Rightarrow> jsval option) option"

text \<open>\<open>Partial<RetryOptions>\<close>: every field may be left out.\<close>

record PartialRetryOptions =
  opt_maxAttempts :: "int option"
  opt_delayMs :: "real option"
  opt_backoffMultiplier :: "real option"
  opt_maxDelayMs :: "real option"
  opt_onRetry :: "(js_error \<Rightarrow> nat \<Rightarrow> jsval option) option"

definition DEFAULT_OPTIONS :: RetryOptions where
  "DEFAULT_OPTIONS =
     \<lparr>maxAttempts = 3, delayMs = 1000, backoffMultiplier = 2, maxDelayMs = 30000,
      onRetry = None\<rparr>"

text \<open>
  The object spread \<open>{ ...d, ...options }\<close>: a field that \<open>options\<close> has replaces the
  one of \<open>d\<close>.
\<close>

definition spread :: "RetryOptions \<Rightarrow> PartialRetryOptions \<Rightarrow> RetryOptions" where
  "spread d options =
     \<lparr>maxAttempts = (case opt_maxAttempts options of Some v \<Rightarrow> v | None \<Rightarrow> maxAttempts d),
      delayMs = (case opt_delayMs options of Some v \<Rightarrow> v | None \<Rightarrow> delayMs d),
      backoffMultiplier =
        (case opt_backoffMultiplier options of Some v \<Rightarrow> v | None \<Rightarrow> backoffMultiplier d),
      maxDelayMs = (case opt_maxDelayMs options of Some v \<Rightarrow> v | None \<Rightarrow> maxDelayMs d),
      onRetry = (case opt_onRetry options of Some cb \<Rightarrow> Some cb | None \<Rightarrow> onRetry d)\<rparr>"

text \<open>The default argument \<open>options = {}\<close>.\<close>

definition no_options :: PartialRetryOptions where
  "no_options =
     \<lparr>opt_maxAttempts = None, opt_delayMs = None, opt_backoffMultiplier = None,
      opt_maxDelayMs = None, opt_onRetry = None\<rparr>"

subsection \<open>The loop\<close>

text \<open>
  What a run of \<open>retry\<close> does besides producing its result is kept as a trace: each
  invocation of the operation (with the attempt it belongs to), each call of \<open>onRetry\<close>
  (with its two arguments) and each \<open>sleep\<close> (with its duration), in the order they
  happen.
\<close>

datatype event = Invoke nat | OnRetry js_error nat | Sleep real

text \<open>Line 46: \<open>opts.onRetry?.(lastError, attempt)\<close>; the trace of the call and what it throws.\<close>

definition notify :: "RetryOptions \<Rightarrow> js_error \<Rightarrow> nat \<Rightarrow> event list" where
  "notify opts lastError attempt =
     (case onRetry opts of None \<Rightarrow> [] | Some cb \<Rightarrow> [OnRetry lastError attempt])"

definition call_onRetry :: "RetryOptions \<Rightarrow> js_error \<Rightarrow> nat \<Rightarrow> jsval option" where
  "call_onRetry opts lastError attempt =
     (case onRetry opts of None \<Rightarrow> None | Some cb \<Rightarrow> cb lastError attempt)"

text \<open>Lines 48 to 51: the delay computed after the failure of \<open>attempt\<close>.\<close>

definition backoff_delay :: "RetryOptions \<Rightarrow> nat \<Rightarrow> real" where
  "backoff_delay opts attempt =
     min (delayMs opts * backoffMultiplier opts ^ (attempt - 1)) (maxDelayMs opts)"

text \<open>
  The operation \<open>fn\<close> is opaque; \<open>fn i\<close> is the outcome of the invocation that attempt
  \<open>i\<close> makes: \<open>Inr v\<close> when the promise resolves with \<open>v\<close>, \<open>Inl x\<close> when it rejects
  with (or the call throws) \<open>x\<close>. An operation whose promise never settles is outside
  the model. The result of the loop is \<open>Inr v\<close> for \<open>return v\<close> and \<open>Inl x\<close> for
  \<open>throw x\<close>, with the trace of the run. A \<open>throw\<close> inside the \<open>catch\<close> block, by line
  40, line 43 or the callback of line 46, ends the run there.

  Lines 36 to 57: the \<open>for\<close> loop from \<open>attempt\<close> on, with the current \<open>lastError\<close>,
  and the \<open>throw lastError\<close> that follows the loop.
\<close>

function retry_loop ::
  "(nat \<Rightarrow> jsval + 'a) \<Rightarrow> RetryOptions \<Rightarrow> nat \<Rightarrow> js_error \<Rightarrow> (jsval + 'a) \<times> event list"
where
  "retry_loop fn opts attempt lastError =
     (if int attempt \<le> maxAttempts opts then
        (case fn attempt of
           Inr v \<Rightarrow> (Inr v, [Invoke attempt])
         | Inl error \<Rightarrow>
             (case to_Error error of
                Inl thrown \<Rightarrow> (Inl thrown, [Invoke attempt])
              | Inr lastError' \<Rightarrow>
                  (if int attempt = maxAttempts opts then
                     (Inl (VError lastError'), [Invoke attempt])
                   else
                     (case call_onRetry opts lastError' attempt of
                        Some thrown \<Rightarrow>
                          (Inl thrown, Invoke attempt # notify opts lastError' attempt)
                      | None \<Rightarrow>
                          (case retry_loop fn opts (Suc attempt) lastError' of
                             (r, tr) \<Rightarrow>
                               (r, Invoke attempt # notify opts lastError' attempt
                                     @ Sleep (backoff_delay opts attempt) # tr))))))
      else (Inl (VError lastError), []))"
  by pat_completeness auto
termination
  by (relation "measure (\<lambda>(fn, opts, attempt, lastError). nat (maxAttempts opts + 1 - int attempt))")
     auto

declare retry_loop.simps [simp del]

text \<open>Lines 28 to 58: merge the options, start with the sentinel error, run the loop from 1.\<close>

definition retry :: "(nat \<Rightarrow> jsval + 'a) \<Rightarrow> PartialRetryOptions \<Rightarrow> (jsval + 'a) \<times> event list" where
  "retry fn options =
     (let opts = spread DEFAULT_OPTIONS options;
          lastError = Error ''No attempts made''
      in retry_loop fn opts 1 lastError)"

text \<open>What a trace shows: the attempts that invoked the operation, the calls of
  \<open>onRetry\<close>, the delays slept.\<close>

fun invokes :: "event list \<Rightarrow> nat list" where
  "invokes [] = []"
| "invokes (Invoke i # tr) = i # invokes tr"
| "invokes (_ # tr) = invokes tr"

fun notifications :: "event list \<Rightarrow> (js_error \<times> nat) list" where
  "notifications [] = []"
| "notifications (OnRetry e i # tr) = (e, i) # notifications tr"
| "notifications (_ # tr) = notifications tr"

fun sleeps :: "event list \<Rightarrow> real list" where
  "sleeps [] = []"
| "sleeps (Sleep d # tr) = d # sleeps tr"
| "sleeps (_ # tr) = sleeps tr"

subsection \<open>Classifying errors\<close>

text \<open>
  \<open>toLowerCase\<close> on the ASCII letters; strings are byte strings here, so a letter
  outside ASCII is left as it is.
\<close>

definition toLowerCase_char :: "char \<Rightarrow> char" where
  "toLowerCase_char c =
     (let n = (of_char c :: nat) in if 65 \<le> n \<and> n \<le> 90 then char_of (n + 32) else c)"

definition toLowerCase :: "string \<Rightarrow> string" where
  "toLowerCase s = map toLowerCase_char s"

text \<open>\<open>s.includes(t)\<close>: \<open>t\<close> starts at some position of \<open>s\<close>.\<close>

fun includes_js :: "string \<Rightarrow> string \<Rightarrow> bool" where
  "includes_js [] t = (t = [])"
| "includes_js (c # s) t = (prefix t (c # s) \<or> includes_js s t)"

definition retryableCodes :: "string list" where
  "retryableCodes = [''ECONNRESET'', ''ETIMEDOUT'', ''ENOTFOUND'']"

text \<open>Lines 70 to 84.\<close>

definition isRetryableError :: "jsval \<Rightarrow> bool" where
  "isRetryableError error =
     (case error of
        VError e \<Rightarrow>
          (let message = toLowerCase (message e) in
             list_ex (\<lambda>code. includes_js message (toLowerCase code)) retryableCodes \<or>
             includes_js message ''rate limit'' \<or>
             includes_js message ''timeout'' \<or>
             includes_js message ''network'')
      | _ \<Rightarrow> False)"

subsection \<open>The shape of a run\<close>

text \<open>
  \<open>captured fn i\<close> is the value that line 40 gives \<open>lastError\<close> in attempt \<open>i\<close>, when
  the operation fails there and line 40 does not throw. Attempt \<open>i\<close> is retried when
  there is such a value, \<open>i\<close> is not the last attempt and \<open>onRetry\<close> (when present)
  returns. Such an attempt leaves the trace \<open>failed_round\<close>: the invocation, the
  notification, the sleep. \<open>rounds\<close> is the trace of the attempts from \<open>a\<close> up to, not
  including, \<open>m\<close>, when all of them are retried.
\<close>

definition captured :: "(nat \<Rightarrow> jsval + 'a) \<Rightarrow> nat \<Rightarrow> js_error option" where
  "captured fn i =
     (case fn i of
        Inr v \<Rightarrow> None
      | Inl x \<Rightarrow> (case to_Error x of Inl thrown \<Rightarrow> None | Inr e \<Rightarrow> Some e))"

definition retried :: "(nat \<Rightarrow> jsval + 'a) \<Rightarrow> RetryOptions \<Rightarrow> nat \<Rightarrow> bool" where
  "retried fn opts i =
     (case captured fn i of
        None \<Rightarrow> False
      | Some e \<Rightarrow> int i \<noteq> maxAttempts opts \<and> call_onRetry opts e i = None)"

definition failed_round :: "(nat \<Rightarrow> jsval + 'a) \<Rightarrow> RetryOptions \<Rightarrow> nat \<Rightarrow> event list" where
  "failed_round fn opts i =
     (case captured fn i of
        None \<Rightarrow> []
      | Some e \<Rightarrow> Invoke i # notify opts e i @ [Sleep (backoff_delay opts i)])"

definition rounds :: "(nat \<Rightarrow> jsval + 'a) \<Rightarrow> RetryOptions \<Rightarrow> nat \<Rightarrow> nat \<Rightarrow> event list" where
  "rounds fn opts a m = concat (map (failed_round fn opts) [a..<m])"

subsection \<open>Example operations and options\<close>

text \<open>An operation that throws a string every time, a different one in each attempt.\<close>

definition failing_op :: "nat \<Rightarrow> jsval + unit" where
  "failing_op i = Inl (VString (replicate i (CHR ''!'')))"

text \<open>The mock of the test suite: two rejections, then \<open>success\<close>.\<close>

definition flaky_op :: "nat \<Rightarrow> jsval + string" where
  "flaky_op i =
     (if i = 1 then Inl (VError (Error ''fail 1''))
      else if i = 2 then Inl (VError (Error ''fail 2''))
      else Inr ''success'')"

text \<open>
  An operation that throws \<open>Object.create(null)\<close> every time, a value for which
  \<open>String\<close> throws a \<open>TypeError\<close>.
\<close>

definition no_string_form :: jsval where
  "no_string_form = VNoString (VError (Error ''Cannot convert object to primitive value''))"

definition unprintable_op :: "nat \<Rightarrow> jsval + unit" where
  "unprintable_op i = Inl no_string_form"

text \<open>The mock again, with a first rejection that has no string form.\<close>

definition unprintable_then_ok :: "nat \<Rightarrow> jsval + string" where
  "unprintable_then_ok i = (if i = 1 then Inl no_string_form else Inr ''success'')"

text \<open>
  Callbacks: one that throws a string, one that returns, one that throws back the
  error it is given, one that returns the first time and throws from then on.
\<close>

definition throwing_callback :: "js_error \<Rightarrow> nat \<Rightarrow> jsval option" where
  "throwing_callback e i = Some (VString ''callback failed'')"

definition quiet_callback :: "js_error \<Rightarrow> nat \<Rightarrow> jsval option" where
  "quiet_callback e i = None"

definition rethrowing_callback :: "js_error \<Rightarrow> nat \<Rightarrow> jsval option" where
  "rethrowing_callback e i = Some (VError e)"

definition late_callback :: "js_error \<Rightarrow> nat \<Rightarrow> jsval option" where
  "late_callback e i = (if i = 1 then None else Some (VString ''give up''))"

definition abort_options :: PartialRetryOptions where
  "abort_options = no_options\<lparr>opt_onRetry := Some throwing_callback\<rparr>"

definition rethrow_options :: PartialRetryOptions where
  "rethrow_options = no_options\<lparr>opt_onRetry := Some rethrowing_callback\<rparr>"

definition late_options :: PartialRetryOptions where
  "late_options = no_options\<lparr>opt_onRetry := Some late_callback\<rparr>"

definition notified_options :: PartialRetryOptions where
  "notified_options = no_options\<lparr>opt_onRetry := Some quiet_callback\<rparr>"

definition backoff_options :: PartialRetryOptions where
  "backoff_options =
     no_options\<lparr>opt_maxAttempts := Some 3, opt_delayMs := Some 100,
       opt_backoffMultiplier := Some 2\<rparr>"

definition capped_options :: PartialRetryOptions where
  "capped_options =
     no_options\<lparr>opt_maxAttempts := Some 2, opt_delayMs := Some 1000,
       opt_backoffMultiplier := Some 10, opt_maxDelayMs := Some 50\<rparr>"

definition once_options :: PartialRetryOptions where
  "once_options = no_options\<lparr>opt_maxAttempts := Some 1\<rparr>"

definition zero_options :: PartialRetryOptions where
  "zero_options = no_options\<lparr>opt_maxAttempts := Some 0\<rparr>"

section \<open>Properties of the loop\<close>

subsection \<open>One step\<close>



lemma captured_Some:
  "captured fn i = Some e \<longleftrightarrow> (\<exists>x. fn i = Inl x \<and> to_Error x = Inr e)"
  by (auto simp: captured_def split: sum.splits)

lemma retry_loop_exit:
  "\<not> int a \<le> maxAttempts opts \<Longrightarrow> retry_loop fn opts a e = (Inl (VError e), [])"
  by (subst retry_loop.simps) simp

lemma retry_loop_success:
  "int a \<le> maxAttempts opts \<Longrightarrow> fn a = Inr v \<Longrightarrow> retry_loop fn opts a e = (Inr v, [Invoke a])"
  by (subst retry_loop.simps) simp

lemma retry_loop_no_string:
  "int a \<le> maxAttempts opts \<Longrightarrow> fn a = Inl x \<Longrightarrow> to_Error x = Inl t \<Longrightarrow>
   retry_loop fn opts a e = (Inl t, [Invoke a])"
  by (subst retry_loop.simps) simp

lemma retry_loop_last:
  "int a = maxAttempts opts \<Longrightarrow> fn a = Inl x \<Longrightarrow> to_Error x = Inr err \<Longrightarrow>
   retry_loop fn opts a e = (Inl (VError err), [Invoke a])"
  by (subst retry_loop.simps) simp

lemma retry_loop_abort:
  "int a < maxAttempts opts \<Longrightarrow> fn a = Inl x \<Longrightarrow> to_Error x = Inr err \<Longrightarrow>
   call_onRetry opts err a = Some y \<Longrightarrow>
   retry_loop fn opts a e = (Inl y, Invoke a # notify opts err a)"
  by (subst retry_loop.simps) simp

lemma retry_loop_again:
  "int a < maxAttempts opts \<Longrightarrow> fn a = Inl x \<Longrightarrow> to_Error x = Inr err \<Longrightarrow>
   call_onRetry opts err a = None \<Longrightarrow>
   retry_loop fn opts a e =
     (fst (retry_loop fn opts (Suc a) err),
      Invoke a # notify opts err a @ Sleep (backoff_delay opts a)
        # snd (retry_loop fn opts (Suc a) err))"
  by (subst retry_loop.simps) (simp add: case_prod_beta)

lemma retry_loop_lastError:
  "int a \<le> maxAttempts opts \<Longrightarrow> retry_loop fn opts a e = retry_loop fn opts a e'"
  by (subst retry_loop.simps, subst (2) retry_loop.simps) simp

lemma retried_iff:
  "retried fn opts i \<longleftrightarrow>
     (\<exists>x e. fn i = Inl x \<and> to_Error x = Inr e \<and> int i \<noteq> maxAttempts opts \<and>
        call_onRetry opts e i = None)"
  by (auto simp: retried_def captured_def split: sum.splits option.splits)

lemma rounds_empty: "rounds fn opts a a = []"
  by (simp add: rounds_def)

lemma rounds_first:
  "a < m \<Longrightarrow> rounds fn opts a m = failed_round fn opts a @ rounds fn opts (Suc a) m"
  by (simp add: rounds_def upt_conv_Cons)

lemma rounds_last:
  "a \<le> m \<Longrightarrow> rounds fn opts a (Suc m) = rounds fn opts a m @ failed_round fn opts m"
  by (simp add: rounds_def)

lemma retried_step:
  assumes "int m \<le> maxAttempts opts" and "retried fn opts m"
  shows "\<exists>err. captured fn m = Some err \<and> int (Suc m) \<le> maxAttempts opts \<and>
    retry_loop fn opts m e =
      (fst (retry_loop fn opts (Suc m) e),
       failed_round fn opts m @ snd (retry_loop fn opts (Suc m) e))"
proof -
  from assms(2) obtain x err where x: "fn m = Inl x" "to_Error x = Inr err"
      "int m \<noteq> maxAttempts opts" "call_onRetry opts err m = None"
    by (auto simp: retried_iff)
  with assms(1) have lt: "int m < maxAttempts opts" by simp
  then have le: "int (Suc m) \<le> maxAttempts opts" by simp
  have cap: "captured fn m = Some err"
    using x(1,2) by (auto simp: captured_Some)
  have "retry_loop fn opts (Suc m) err = retry_loop fn opts (Suc m) e"
    using le by (rule retry_loop_lastError)
  with retry_loop_again [of m opts fn x err e, OF lt x(1) x(2) x(4)] cap le show ?thesis
    by (simp add: failed_round_def)
qed

lemma retry_loop_upto:
  assumes "a \<le> m" and "int m \<le> maxAttempts opts"
    and "\<forall>j. a \<le> j \<and> j < m \<longrightarrow> retried fn opts j"
  shows "retry_loop fn opts a e =
    (fst (retry_loop fn opts m e), rounds fn opts a m @ snd (retry_loop fn opts m e))"
  using assms
proof (induction rule: dec_induct)
  case base
  show ?case by (simp add: rounds_empty)
next
  case (step n)
  from step.prems have n: "int n \<le> maxAttempts opts" "retried fn opts n"
    using step.hyps by auto
  from retried_step [OF n, of e] step.IH n(1) step.prems(2) step.hyps show ?case
    by (auto simp: rounds_last)
qed

lemma retry_loop_shape:
  "int a \<le> maxAttempts opts \<Longrightarrow>
   \<exists>m. a \<le> m \<and> int m \<le> maxAttempts opts \<and> (\<forall>j. a \<le> j \<and> j < m \<longrightarrow> retried fn opts j) \<and>
       \<not> retried fn opts m \<and>
       retry_loop fn opts a e =
         (fst (retry_loop fn opts m e), rounds fn opts a m @ snd (retry_loop fn opts m e))"
proof (induction fn opts a e rule: retry_loop.induct)
  case (1 fn opts attempt lastError)
  show ?case
  proof (cases "retried fn opts attempt")
    case False
    with "1.prems" show ?thesis
      by (intro exI [of _ attempt]) (auto simp: rounds_empty)
  next
    case True
    then obtain x err where x: "fn attempt = Inl x" "to_Error x = Inr err"
        "int attempt \<noteq> maxAttempts opts" "call_onRetry opts err attempt = None"
      by (auto simp: retried_iff)
    with "1.prems" have lt: "int attempt < maxAttempts opts" by simp
    then have le: "int (Suc attempt) \<le> maxAttempts opts" by simp
    from "1.IH" [OF "1.prems" x(1) x(2) x(3) x(4) le]
    obtain m where m: "Suc attempt \<le> m" "int m \<le> maxAttempts opts"
        "\<forall>j. Suc attempt \<le> j \<and> j < m \<longrightarrow> retried fn opts j" "\<not> retried fn opts m"
      by blast
    have all: "\<forall>j. attempt \<le> j \<and> j < m \<longrightarrow> retried fn opts j"
    proof (intro allI impI)
      fix j assume "attempt \<le> j \<and> j < m"
      then show "retried fn opts j"
        using True m(3) by (cases "j = attempt") auto
    qed
    have "attempt \<le> m" using m(1) by simp
    from retry_loop_upto [OF this m(2) all, of lastError] m(1,2,4) all show ?thesis
      by (intro exI [of _ m]) simp
  qed
qed

lemma final_step:
  assumes "int m \<le> maxAttempts opts" and "\<not> retried fn opts m"
  shows "(\<exists>v. fn m = Inr v \<and> retry_loop fn opts m e = (Inr v, [Invoke m])) \<or>
    (\<exists>x t. fn m = Inl x \<and> to_Error x = Inl t \<and>
       retry_loop fn opts m e = (Inl t, [Invoke m])) \<or>
    (\<exists>x err. fn m = Inl x \<and> to_Error x = Inr err \<and> int m = maxAttempts opts \<and>
       retry_loop fn opts m e = (Inl (VError err), [Invoke m])) \<or>
    (\<exists>x err y. fn m = Inl x \<and> to_Error x = Inr err \<and> int m < maxAttempts opts \<and>
       call_onRetry opts err m = Some y \<and>
       retry_loop fn opts m e = (Inl y, Invoke m # notify opts err m))"
proof (cases "fn m")
  case (Inr v)
  with assms(1) show ?thesis by (simp add: retry_loop_success)
next
  case (Inl x)
  show ?thesis
  proof (cases "to_Error x")
    case t: (Inl t)
    with Inl assms(1) show ?thesis by (simp add: retry_loop_no_string)
  next
    case err: (Inr err)
    show ?thesis
    proof (cases "int m = maxAttempts opts")
      case True
      with Inl err show ?thesis by (simp add: retry_loop_last)
    next
      case False
      with assms(1) have lt: "int m < maxAttempts opts" by simp
      from assms(2) Inl err False obtain y where "call_onRetry opts err m = Some y"
        by (auto simp: retried_iff)
      with Inl err lt show ?thesis by (simp add: retry_loop_abort)
    qed
  qed
qed

subsection \<open>What a trace shows\<close>

lemma invokes_append: "invokes (xs @ ys) = invokes xs @ invokes ys"
  by (induction xs rule: invokes.induct) simp_all

lemma notifications_append: "notifications (xs @ ys) = notifications xs @ notifications ys"
  by (induction xs rule: notifications.induct) simp_all

lemma sleeps_append: "sleeps (xs @ ys) = sleeps xs @ sleeps ys"
  by (induction xs rule: sleeps.induct) simp_all

lemma invokes_notify: "invokes (notify opts e i) = []"
  by (simp add: notify_def split: option.splits)

lemma sleeps_notify: "sleeps (notify opts e i) = []"
  by (simp add: notify_def split: option.splits)

lemma notifications_notify:
  "notifications (notify opts e i) = (case onRetry opts of None \<Rightarrow> [] | Some cb \<Rightarrow> [(e, i)])"
  by (simp add: notify_def split: option.splits)

lemma retried_captured: "retried fn opts m \<Longrightarrow> \<exists>err. captured fn m = Some err"
  by (auto simp: retried_def split: option.splits)

lemma invokes_rounds:
  "\<forall>j. a \<le> j \<and> j < m \<longrightarrow> retried fn opts j \<Longrightarrow> invokes (rounds fn opts a m) = [a..<m]"
proof (induction m)
  case 0
  show ?case by (simp add: rounds_def)
next
  case (Suc m)
  show ?case
  proof (cases "a \<le> m")
    case True
    with Suc.prems have "retried fn opts m" by simp
    then obtain err where "captured fn m = Some err" by (auto dest: retried_captured)
    with Suc True show ?thesis
      by (simp add: rounds_last invokes_append invokes_notify failed_round_def)
  next
    case False
    then show ?thesis by (simp add: rounds_def)
  qed
qed

lemma sleeps_rounds:
  "\<forall>j. a \<le> j \<and> j < m \<longrightarrow> retried fn opts j \<Longrightarrow>
   sleeps (rounds fn opts a m) = map (backoff_delay opts) [a..<m]"
proof (induction m)
  case 0
  show ?case by (simp add: rounds_def)
next
  case (Suc m)
  show ?case
  proof (cases "a \<le> m")
    case True
    with Suc.prems have "retried fn opts m" by simp
    then obtain err where "captured fn m = Some err" by (auto dest: retried_captured)
    with Suc True show ?thesis
      by (simp add: rounds_last sleeps_append sleeps_notify failed_round_def)
  next
    case False
    then show ?thesis by (simp add: rounds_def)
  qed
qed

lemma notifications_rounds:
  "\<forall>j. a \<le> j \<and> j < m \<longrightarrow> retried fn opts j \<Longrightarrow>
   notifications (rounds fn opts a m) =
     (case onRetry opts of
        None \<Rightarrow> []
      | Some cb \<Rightarrow> map (\<lambda>i. (the (captured fn i), i)) [a..<m])"
proof (induction m)
  case 0
  show ?case by (simp add: rounds_def split: option.splits)
next
  case (Suc m)
  show ?case
  proof (cases "a \<le> m")
    case True
    with Suc.prems have "retried fn opts m" by simp
    then obtain err where "captured fn m = Some err" by (auto dest: retried_captured)
    with Suc True show ?thesis
      by (simp add: rounds_last notifications_append notifications_notify failed_round_def
          split: option.splits)
  next
    case False
    then show ?thesis by (simp add: rounds_def split: option.splits)
  qed
qed

lemma Sleep_in_trace: "Sleep d \<in> set tr \<longleftrightarrow> d \<in> set (sleeps tr)"
  by (induction tr rule: sleeps.induct) auto


lemma OnRetry_in_trace: "OnRetry e i \<in> set tr \<longleftrightarrow> (e, i) \<in> set (notifications tr)"
  by (induction tr rule: notifications.induct) auto

lemma retry_loop_sleep_before:
  "snd (retry_loop fn opts a e) = pre @ Invoke i # post \<Longrightarrow>
   (i = a \<and> pre = []) \<or>
   (a < i \<and> (\<exists>pre'. pre = pre' @ [Sleep (backoff_delay opts (i - 1))]))"
proof (induction fn opts a e arbitrary: pre rule: retry_loop.induct)
  case (1 fn opts attempt lastError)
  show ?case
  proof (cases "retried fn opts attempt \<and> int attempt \<le> maxAttempts opts")
    case False
    then consider "\<not> int attempt \<le> maxAttempts opts"
      | "int attempt \<le> maxAttempts opts" "\<not> retried fn opts attempt" by blast
    then show ?thesis
    proof cases
      case 1
      with "1.prems" show ?thesis by (simp add: retry_loop_exit)
    next
      case 2
      from final_step [OF 2, of lastError] "1.prems" show ?thesis
        by (auto simp: Cons_eq_append_conv notify_def split: option.splits)
    qed
  next
    case True
    then obtain x err where x: "fn attempt = Inl x" "to_Error x = Inr err"
        "int attempt \<noteq> maxAttempts opts" "call_onRetry opts err attempt = None"
      by (auto simp: retried_iff)
    with True have lt: "int attempt < maxAttempts opts" by simp
    let ?tr = "snd (retry_loop fn opts (Suc attempt) err)"
    have tr: "snd (retry_loop fn opts attempt lastError) =
        Invoke attempt # notify opts err attempt @ Sleep (backoff_delay opts attempt) # ?tr"
      using retry_loop_again [of attempt opts fn x err lastError, OF lt x(1) x(2) x(4)] by simp
    have IH: "\<And>pre. ?tr = pre @ Invoke i # post \<Longrightarrow>
        (i = Suc attempt \<and> pre = []) \<or>
        (Suc attempt < i \<and> (\<exists>pre'. pre = pre' @ [Sleep (backoff_delay opts (i - 1))]))"
      using "1.IH" [OF _ x(1) x(2) x(3) x(4)] True by blast
    from "1.prems" tr have eq: "Invoke attempt # notify opts err attempt
        @ Sleep (backoff_delay opts attempt) # ?tr = pre @ Invoke i # post" by simp
    show ?thesis
    proof (cases pre)
      case Nil
      with eq show ?thesis by simp
    next
      case (Cons p pre1)
      with eq have eq1: "notify opts err attempt
          @ Sleep (backoff_delay opts attempt) # ?tr = pre1 @ Invoke i # post"
        and p: "p = Invoke attempt" by simp_all
      then obtain pre2 where pre2: "pre1 = notify opts err attempt
          @ Sleep (backoff_delay opts attempt) # pre2" "?tr = pre2 @ Invoke i # post"
        by (auto simp: notify_def Cons_eq_append_conv split: option.splits)
      from IH [OF pre2(2)] show ?thesis
        using Cons p pre2(1) by auto
    qed
  qed
qed

text \<open>Unfolding a run on a concrete input.\<close>

lemmas run_simps =
  retry_def spread_def DEFAULT_OPTIONS_def no_options_def retry_loop.simps call_onRetry_def
  notify_def backoff_delay_def to_Error_def

lemmas example_simps =
  failing_op_def flaky_op_def no_string_form_def unprintable_op_def unprintable_then_ok_def
  throwing_callback_def quiet_callback_def rethrowing_callback_def late_callback_def
  abort_options_def rethrow_options_def late_options_def notified_options_def
  backoff_options_def capped_options_def once_options_def zero_options_def

subsection \<open>Whole runs\<close>

lemma retry_unfold:
  "retry fn options =
     retry_loop fn (spread DEFAULT_OPTIONS options) 1 (Error ''No attempts made'')"
  by (simp add: retry_def)

lemma retry_upto:
  assumes "opts = spread DEFAULT_OPTIONS options"
    and "1 \<le> m" and "int m \<le> maxAttempts opts"
    and "\<forall>j. 1 \<le> j \<and> j < m \<longrightarrow> retried fn opts j"
  shows "retry fn options =
    (fst (retry_loop fn opts m (Error ''No attempts made'')),
     rounds fn opts 1 m @ snd (retry_loop fn opts m (Error ''No attempts made'')))"
  using retry_loop_upto [OF assms(2,3,4)] assms(1) by (simp add: retry_unfold)

lemma retry_shape:
  assumes "opts = spread DEFAULT_OPTIONS options" and "1 \<le> maxAttempts opts"
  shows "\<exists>m. 1 \<le> m \<and> int m \<le> maxAttempts opts \<and>
       (\<forall>j. 1 \<le> j \<and> j < m \<longrightarrow> retried fn opts j) \<and> \<not> retried fn opts m \<and>
       retry fn options =
         (fst (retry_loop fn opts m (Error ''No attempts made'')),
          rounds fn opts 1 m @ snd (retry_loop fn opts m (Error ''No attempts made'')))"
  using retry_loop_shape [of 1 opts fn "Error ''No attempts made''"] assms
  by (simp add: retry_unfold)

lemma never_throws_retried:
  "\<forall>e i. call_onRetry opts e i = None \<Longrightarrow>
   retried fn opts j \<longleftrightarrow>
     (\<exists>x e. fn j = Inl x \<and> to_Error x = Inr e) \<and> int j \<noteq> maxAttempts opts"
  by (auto simp: retried_iff)

lemma final_step_quiet:
  assumes "int m \<le> maxAttempts opts" and "\<not> retried fn opts m"
    and "\<forall>e i. call_onRetry opts e i = None"
  shows "snd (retry_loop fn opts m e) = [Invoke m]"
  using final_step [OF assms(1,2), of e] assms(3) by auto

lemma retry_loop_notified:
  "int a \<le> maxAttempts opts \<Longrightarrow>
   (err, i) \<in> set (notifications (snd (retry_loop fn opts a e))) \<Longrightarrow>
   \<exists>x. fn i = Inl x \<and> to_Error x = Inr err"
proof -
  assume le: "int a \<le> maxAttempts opts"
    and mem: "(err, i) \<in> set (notifications (snd (retry_loop fn opts a e)))"
  from retry_loop_shape [OF le, of fn e] obtain m where m: "a \<le> m" "int m \<le> maxAttempts opts"
      "\<forall>j. a \<le> j \<and> j < m \<longrightarrow> retried fn opts j" "\<not> retried fn opts m"
      "retry_loop fn opts a e =
         (fst (retry_loop fn opts m e), rounds fn opts a m @ snd (retry_loop fn opts m e))"
    by blast
  from mem m(5) have "(err, i) \<in> set (notifications (rounds fn opts a m)) \<or>
      (err, i) \<in> set (notifications (snd (retry_loop fn opts m e)))"
    by (simp add: notifications_append)
  then show ?thesis
  proof
    assume "(err, i) \<in> set (notifications (rounds fn opts a m))"
    with notifications_rounds [OF m(3)] have i: "a \<le> i" "i < m" "err = the (captured fn i)"
      by (auto split: option.splits)
    with m(3) have "retried fn opts i" by simp
    then obtain err' where "captured fn i = Some err'" by (auto dest: retried_captured)
    with i(3) show ?thesis by (simp add: captured_Some)
  next
    assume "(err, i) \<in> set (notifications (snd (retry_loop fn opts m e)))"
    with final_step [OF m(2,4), of e] show ?thesis
      by (auto simp: notifications_notify split: option.splits)
  qed
qed

lemma retry_loop_notify_after:
  "snd (retry_loop fn opts a e) = pre @ OnRetry err i # post \<Longrightarrow>
   \<exists>pre'. pre = pre' @ [Invoke i]"
proof (induction fn opts a e arbitrary: pre rule: retry_loop.induct)
  case (1 fn opts attempt lastError)
  show ?case
  proof (cases "retried fn opts attempt \<and> int attempt \<le> maxAttempts opts")
    case False
    then consider "\<not> int attempt \<le> maxAttempts opts"
      | "int attempt \<le> maxAttempts opts" "\<not> retried fn opts attempt" by blast
    then show ?thesis
    proof cases
      case 1
      with "1.prems" show ?thesis by (simp add: retry_loop_exit)
    next
      case 2
      from final_step [OF 2, of lastError] "1.prems" show ?thesis
        by (auto simp: Cons_eq_append_conv notify_def split: option.splits)
    qed
  next
    case True
    then obtain x e where x: "fn attempt = Inl x" "to_Error x = Inr e"
        "int attempt \<noteq> maxAttempts opts" "call_onRetry opts e attempt = None"
      by (auto simp: retried_iff)
    with True have lt: "int attempt < maxAttempts opts" by simp
    let ?tr = "snd (retry_loop fn opts (Suc attempt) e)"
    have tr: "snd (retry_loop fn opts attempt lastError) =
        Invoke attempt # notify opts e attempt @ Sleep (backoff_delay opts attempt) # ?tr"
      using retry_loop_again [of attempt opts fn x e lastError, OF lt x(1) x(2) x(4)] by simp
    have IH: "\<And>pre. ?tr = pre @ OnRetry err i # post \<Longrightarrow> \<exists>pre'. pre = pre' @ [Invoke i]"
      using "1.IH" [OF _ x(1) x(2) x(3) x(4)] True by blast
    from "1.prems" tr have eq: "Invoke attempt # notify opts e attempt
        @ Sleep (backoff_delay opts attempt) # ?tr = pre @ OnRetry err i # post" by simp
    show ?thesis
    proof (cases "onRetry opts")
      case None
      with eq obtain pre2 where "pre = Invoke attempt # Sleep (backoff_delay opts attempt) # pre2"
          "?tr = pre2 @ OnRetry err i # post"
        by (auto simp: notify_def Cons_eq_append_conv)
      with IH show ?thesis by auto
    next
      case (Some cb)
      with eq have "pre = [Invoke attempt] \<and> i = attempt \<or>
          (\<exists>pre2. pre = Invoke attempt # OnRetry e attempt
              # Sleep (backoff_delay opts attempt) # pre2 \<and> ?tr = pre2 @ OnRetry err i # post)"
        by (auto simp: notify_def Cons_eq_append_conv)
      with IH show ?thesis by auto
    qed
  qed
qed

lemma retry_sleeps:
  assumes "opts = spread DEFAULT_OPTIONS options"
  shows "\<exists>m. sleeps (snd (retry fn options)) = map (backoff_delay opts) [1..<m]"
proof (cases "1 \<le> maxAttempts opts")
  case False
  then have "retry fn options = (Inl (VError (Error ''No attempts made'')), [])"
    using assms by (simp add: retry_unfold retry_loop_exit)
  then show ?thesis by (intro exI [of _ 0]) simp
next
  case True
  let ?s = "Error ''No attempts made''"
  from retry_shape [OF assms True, of fn] obtain n where n: "1 \<le> n" "int n \<le> maxAttempts opts"
      "\<forall>j. 1 \<le> j \<and> j < n \<longrightarrow> retried fn opts j" "\<not> retried fn opts n"
      "retry fn options =
         (fst (retry_loop fn opts n ?s), rounds fn opts 1 n @ snd (retry_loop fn opts n ?s))"
    by blast
  have "sleeps (snd (retry_loop fn opts n ?s)) = []"
    using final_step [OF n(2,4), of ?s] by (auto simp: sleeps_notify)
  with sleeps_rounds [OF n(3)] n(5) show ?thesis
    by (intro exI [of _ n]) (simp add: sleeps_append)
qed

lemma capped_delay:
  assumes "delayMs opts = 1000" and "backoffMultiplier opts = 10" and "maxDelayMs opts = 50"
  shows "backoff_delay opts i = 50"
proof -
  have "(1::real) \<le> 10 ^ (i - 1)" by (rule one_le_power) simp
  then have "(1000::real) * 1 \<le> 1000 * 10 ^ (i - 1)" by (intro mult_left_mono) simp_all
  then have "(50::real) \<le> 1000 * 10 ^ (i - 1)" by linarith
  with assms show ?thesis by (simp add: backoff_delay_def)
qed


subsection \<open>Substrings and lower case\<close>

lemma includes_js_iff: "includes_js s t \<longleftrightarrow> (\<exists>p q. s = p @ t @ q)"
proof (induction s)
  case Nil
  show ?case by auto
next
  case (Cons c s)
  show ?case
  proof
    assume "includes_js (c # s) t"
    then consider "prefix t (c # s)" | "includes_js s t" by auto
    then show "\<exists>p q. c # s = p @ t @ q"
    proof cases
      case 1
      then obtain q where "c # s = t @ q" by (auto simp: prefix_def)
      then have "c # s = [] @ t @ q" by simp
      then show ?thesis by blast
    next
      case 2
      with Cons.IH obtain p q where "s = p @ t @ q" by blast
      then have "c # s = (c # p) @ t @ q" by simp
      then show ?thesis by blast
    qed
  next
    assume "\<exists>p q. c # s = p @ t @ q"
    then obtain p q where pq: "c # s = p @ t @ q" by blast
    show "includes_js (c # s) t"
    proof (cases p)
      case Nil
      with pq have "prefix t (c # s)" by (simp add: prefix_def)
      then show ?thesis by simp
    next
      case (Cons a p')
      with pq have "s = p' @ t @ q" by simp
      with Cons.IH have "includes_js s t" by blast
      then show ?thesis by simp
    qed
  qed
qed

lemma toLowerCase_codes:
  "map toLowerCase retryableCodes = [''econnreset'', ''etimedout'', ''enotfound'']"
  by (simp add: retryableCodes_def toLowerCase_def toLowerCase_char_def char_of_def bit_Suc_0_iff)

section \<open>The claims\<close>

subsection \<open>C1: an operation that always fails\<close>

text \<open>
  C1, as stated: for every policy with \<open>maxAttempts = N\<close>, \<open>N \<ge> 1\<close>, and every operation
  that fails on every invocation, \<open>retry\<close> invokes the operation exactly \<open>N\<close> times and
  then propagates the normalized failure of the \<open>N\<close>-th attempt. This fails in two
  ways, both by a \<open>throw\<close> inside the \<open>catch\<close> block, which has nothing around it: when
  \<open>onRetry\<close> throws at line 46, and when the operation throws a value with no string
  form, for which \<open>String(error)\<close> throws at line 40. Either ends the run at the first
  attempt (counterexample below).

  C1, amended: when \<open>onRetry\<close> is absent or returns whenever it is called, and what
  the operation throws in every invocation is an \<open>Error\<close> or has a string form (line 40
  gives a value), the operation is invoked exactly \<open>N\<close> times, in the attempts \<open>1\<close> to
  \<open>N\<close>, and \<open>retry\<close> throws the normalized failure of attempt \<open>N\<close>.
\<close>

theorem retry_all_attempts_fail:
  assumes "opts = spread DEFAULT_OPTIONS options"
    and "maxAttempts opts = int N" and "1 \<le> N"
    and "\<forall>i. \<exists>x e. fn i = Inl x \<and> to_Error x = Inr e"
    and "\<forall>e i. call_onRetry opts e i = None"
  shows "length (invokes (snd (retry fn options))) = N \<and>
    invokes (snd (retry fn options)) = [1..<Suc N] \<and>
    (\<exists>x e. fn N = Inl x \<and> to_Error x = Inr e \<and> fst (retry fn options) = Inl (VError e))"
proof -
  have all: "\<forall>j. 1 \<le> j \<and> j < N \<longrightarrow> retried fn opts j"
    using assms(2,4) by (simp add: never_throws_retried [OF assms(5)])
  from assms(4) obtain x e where x: "fn N = Inl x" "to_Error x = Inr e"
    by blast
  have last: "retry_loop fn opts N (Error ''No attempts made'') = (Inl (VError e), [Invoke N])"
    using assms(2) x by (simp add: retry_loop_last)
  have run: "retry fn options = (Inl (VError e), rounds fn opts 1 N @ [Invoke N])"
    using retry_upto [OF assms(1) assms(3) _ all] assms(2) last by simp
  have inv: "invokes (snd (retry fn options)) = [1..<Suc N]"
    using assms(3) invokes_rounds [OF all] by (simp add: run invokes_append)
  from run inv x show ?thesis by simp
qed

theorem retry_all_attempts_fail_witness:
  "maxAttempts (spread DEFAULT_OPTIONS no_options) = int 3 \<and> (1::nat) \<le> 3 \<and>
   (\<forall>i. \<exists>x e. failing_op i = Inl x \<and> to_Error x = Inr e) \<and>
   (\<forall>e i. call_onRetry (spread DEFAULT_OPTIONS no_options) e i = None) \<and>
   length (invokes (snd (retry failing_op no_options))) = 3 \<and>
   invokes (snd (retry failing_op no_options)) = [1..<Suc 3] \<and>
   failing_op 3 = Inl (VString ''!!!'') \<and>
   to_Error (VString ''!!!'') = Inr (Error ''!!!'') \<and>
   fst (retry failing_op no_options) = Inl (VError (Error ''!!!''))"
proof -
  have h1: "maxAttempts (spread DEFAULT_OPTIONS no_options) = int 3"
    by (simp add: run_simps)
  have h2: "(1::nat) \<le> 3" by simp
  have h3: "\<forall>i. \<exists>x e. failing_op i = Inl x \<and> to_Error x = Inr e"
    by (simp add: failing_op_def to_Error_def)
  have h4: "\<forall>e i. call_onRetry (spread DEFAULT_OPTIONS no_options) e i = None"
    by (simp add: run_simps)
  have h5: "failing_op 3 = Inl (VString ''!!!'')"
    by (simp add: failing_op_def numeral_3_eq_3)
  have h6: "to_Error (VString ''!!!'') = Inr (Error ''!!!'')"
    by (simp add: to_Error_def)
  note t = retry_all_attempts_fail [OF refl h1 h2 h3 h4]
  from t have c1: "length (invokes (snd (retry failing_op no_options))) = 3"
    and c2: "invokes (snd (retry failing_op no_options)) = [1..<Suc 3]"
    by blast+
  from t h5 h6 have c3: "fst (retry failing_op no_options) = Inl (VError (Error ''!!!''))"
    by auto
  from h1 h2 h3 h4 c1 c2 h5 h6 c3 show ?thesis by (intro conjI)
qed

theorem retry_all_attempts_fail_counterexample:
  "maxAttempts (spread DEFAULT_OPTIONS abort_options) = 3 \<and>
   failing_op 1 = Inl (VString ''!'') \<and>
   retry failing_op abort_options =
     (Inl (VString ''callback failed''), [Invoke 1, OnRetry (Error ''!'') 1]) \<and>
   maxAttempts (spread DEFAULT_OPTIONS no_options) = 3 \<and>
   onRetry (spread DEFAULT_OPTIONS no_options) = None \<and>
   unprintable_op 1 = Inl no_string_form \<and>
   retry unprintable_op no_options =
     (Inl (VError (Error ''Cannot convert object to primitive value'')), [Invoke 1])"
  by (simp add: run_simps example_simps)

subsection \<open>C2: an operation that succeeds on attempt \<open>k\<close>\<close>

text \<open>
  C2, as stated: for every policy with \<open>maxAttempts = N\<close> and every operation that first
  succeeds on attempt \<open>k \<le> N\<close>, \<open>retry\<close> invokes the operation exactly \<open>k\<close> times, returns
  the value of attempt \<open>k\<close> and sleeps no delay after it. A throwing \<open>onRetry\<close>, or an
  earlier failure with no string form (\<open>String(error)\<close> throws at line 40), ends the run
  at that failed attempt, before attempt \<open>k\<close> is made (counterexample below).

  C2, amended: when \<open>onRetry\<close> is absent or returns whenever it is called, and what
  the operation throws in the attempts before \<open>k\<close> is an \<open>Error\<close> or has a string form,
  the operation is invoked exactly \<open>k\<close> times, \<open>retry\<close> returns the value of attempt
  \<open>k\<close>, the last thing the run does is that invocation, and the delays slept are those
  after the attempts \<open>1\<close> to \<open>k - 1\<close>.
\<close>

theorem retry_succeeds_on_attempt:
  assumes "opts = spread DEFAULT_OPTIONS options"
    and "maxAttempts opts = int N" and "1 \<le> k" and "k \<le> N"
    and "\<forall>j. 1 \<le> j \<and> j < k \<longrightarrow> (\<exists>x e. fn j = Inl x \<and> to_Error x = Inr e)"
    and "fn k = Inr v"
    and "\<forall>e i. call_onRetry opts e i = None"
  shows "fst (retry fn options) = Inr v \<and>
    length (invokes (snd (retry fn options))) = k \<and>
    invokes (snd (retry fn options)) = [1..<Suc k] \<and>
    last (snd (retry fn options)) = Invoke k \<and>
    sleeps (snd (retry fn options)) = map (backoff_delay opts) [1..<k]"
proof -
  have all: "\<forall>j. 1 \<le> j \<and> j < k \<longrightarrow> retried fn opts j"
    using assms(2,4,5) by (simp add: never_throws_retried [OF assms(7)])
  have le: "int k \<le> maxAttempts opts"
    using assms(2,4) by simp
  have last: "retry_loop fn opts k (Error ''No attempts made'') = (Inr v, [Invoke k])"
    using le assms(6) by (simp add: retry_loop_success)
  have run: "retry fn options = (Inr v, rounds fn opts 1 k @ [Invoke k])"
    using retry_upto [OF assms(1) assms(3) le all] last by simp
  have inv: "invokes (snd (retry fn options)) = [1..<Suc k]"
    using assms(3) invokes_rounds [OF all] by (simp add: run invokes_append)
  have sl: "sleeps (snd (retry fn options)) = map (backoff_delay opts) [1..<k]"
    using sleeps_rounds [OF all] by (simp add: run sleeps_append)
  from run inv sl show ?thesis by simp
qed

theorem retry_succeeds_on_attempt_witness:
  "maxAttempts (spread DEFAULT_OPTIONS backoff_options) = int 3 \<and> (1::nat) \<le> 3 \<and> (3::nat) \<le> 3 \<and>
   flaky_op 1 = Inl (VError (Error ''fail 1'')) \<and>
   flaky_op 2 = Inl (VError (Error ''fail 2'')) \<and>
   flaky_op 3 = Inr ''success'' \<and>
   (\<forall>e i. call_onRetry (spread DEFAULT_OPTIONS backoff_options) e i = None) \<and>
   fst (retry flaky_op backoff_options) = Inr ''success'' \<and>
   length (invokes (snd (retry flaky_op backoff_options))) = 3 \<and>
   last (snd (retry flaky_op backoff_options)) = Invoke 3 \<and>
   sleeps (snd (retry flaky_op backoff_options)) = [100, 200]"
proof -
  have h1: "maxAttempts (spread DEFAULT_OPTIONS backoff_options) = int 3"
    by (simp add: run_simps example_simps)
  have h2: "(1::nat) \<le> 3" and h3: "(3::nat) \<le> 3" by simp_all
  have h4: "\<forall>j. 1 \<le> j \<and> j < 3 \<longrightarrow> (\<exists>x e. flaky_op j = Inl x \<and> to_Error x = Inr e)"
    by (simp add: flaky_op_def to_Error_def)
  have h5: "flaky_op 3 = Inr ''success''" by (simp add: flaky_op_def)
  have h6: "\<forall>e i. call_onRetry (spread DEFAULT_OPTIONS backoff_options) e i = None"
    by (simp add: run_simps example_simps)
  have d: "map (backoff_delay (spread DEFAULT_OPTIONS backoff_options)) [1..<3] = [100, 200]"
    by (simp add: run_simps example_simps upt_rec numeral_3_eq_3)
  have f: "flaky_op 1 = Inl (VError (Error ''fail 1''))"
    "flaky_op 2 = Inl (VError (Error ''fail 2''))"
    by (simp_all add: flaky_op_def)
  note t = retry_succeeds_on_attempt [OF refl h1 h2 h3 h4 h5 h6]
  from t have c1: "fst (retry flaky_op backoff_options) = Inr ''success''"
    and c2: "length (invokes (snd (retry flaky_op backoff_options))) = 3"
    and c3: "last (snd (retry flaky_op backoff_options)) = Invoke 3"
    by blast+
  from t d have c4: "sleeps (snd (retry flaky_op backoff_options)) = [100, 200]"
    by simp
  from h1 h2 h3 f h5 h6 c1 c2 c3 c4 show ?thesis by (intro conjI)
qed

theorem retry_succeeds_on_attempt_counterexample:
  "maxAttempts (spread DEFAULT_OPTIONS abort_options) = 3 \<and>
   flaky_op 1 = Inl (VError (Error ''fail 1'')) \<and>
   flaky_op 2 = Inl (VError (Error ''fail 2'')) \<and>
   flaky_op 3 = Inr ''success'' \<and>
   retry flaky_op abort_options =
     (Inl (VString ''callback failed''), [Invoke 1, OnRetry (Error ''fail 1'') 1]) \<and>
   maxAttempts (spread DEFAULT_OPTIONS no_options) = 3 \<and>
   onRetry (spread DEFAULT_OPTIONS no_options) = None \<and>
   unprintable_then_ok 1 = Inl no_string_form \<and>
   unprintable_then_ok 2 = Inr ''success'' \<and>
   retry unprintable_then_ok no_options =
     (Inl (VError (Error ''Cannot convert object to primitive value'')), [Invoke 1])"
  by (simp add: run_simps example_simps)

subsection \<open>C3: the calls of \<open>onRetry\<close>\<close>

text \<open>
  C3, as stated: in every execution of \<open>retry\<close> that makes \<open>m\<close> attempts, \<open>onRetry\<close>,
  when present, is called exactly \<open>m - 1\<close> times, once after each failed attempt that is
  not the final one, with that attempt's failure and its number, counted from 1. When
  \<open>onRetry\<close> throws, the attempt it was called for is the last one made, so it has been
  called \<open>m\<close> times (counterexample below).

  C3, amended: in every execution with \<open>maxAttempts \<ge> 1\<close> in which \<open>onRetry\<close> is present
  and returns whenever it is called, \<open>m\<close> attempts are made, numbered \<open>1\<close> to \<open>m\<close>, and
  \<open>onRetry\<close> is called exactly \<open>m - 1\<close> times, for the attempts \<open>1\<close> to \<open>m - 1\<close> in
  this order, each time right after the invocation of that attempt and with the
  normalized failure of that attempt and its number.
\<close>

theorem onRetry_once_per_retried_attempt:
  assumes "opts = spread DEFAULT_OPTIONS options"
    and "1 \<le> maxAttempts opts"
    and "onRetry opts = Some cb" and "\<forall>e i. cb e i = None"
    and "m = length (invokes (snd (retry fn options)))"
  shows "1 \<le> m \<and>
    invokes (snd (retry fn options)) = [1..<Suc m] \<and>
    length (notifications (snd (retry fn options))) = m - 1 \<and>
    map snd (notifications (snd (retry fn options))) = [1..<m] \<and>
    (\<forall>e i. (e, i) \<in> set (notifications (snd (retry fn options))) \<longrightarrow>
       (\<exists>x. fn i = Inl x \<and> to_Error x = Inr e)) \<and>
    (\<forall>pre e i post. snd (retry fn options) = pre @ OnRetry e i # post \<longrightarrow>
       (\<exists>pre'. pre = pre' @ [Invoke i]))"
proof -
  let ?s = "Error ''No attempts made''"
  have quiet: "\<forall>e i. call_onRetry opts e i = None"
    using assms(3,4) by (simp add: call_onRetry_def)
  from retry_shape [OF assms(1,2), of fn] obtain n where n: "1 \<le> n" "int n \<le> maxAttempts opts"
      "\<forall>j. 1 \<le> j \<and> j < n \<longrightarrow> retried fn opts j" "\<not> retried fn opts n"
      "retry fn options =
         (fst (retry_loop fn opts n ?s), rounds fn opts 1 n @ snd (retry_loop fn opts n ?s))"
    by blast
  have tr: "snd (retry fn options) = rounds fn opts 1 n @ [Invoke n]"
    using final_step_quiet [OF n(2,4) quiet, of ?s] n(5) by simp
  have inv: "invokes (snd (retry fn options)) = [1..<Suc n]"
    using n(1) invokes_rounds [OF n(3)] by (simp add: tr invokes_append)
  with assms(5) have mn: "m = n" by simp
  have nots: "notifications (snd (retry fn options)) =
      map (\<lambda>i. (the (captured fn i), i)) [1..<n]"
    using notifications_rounds [OF n(3)] assms(3) by (simp add: tr notifications_append)
  have le: "int 1 \<le> maxAttempts opts" using assms(2) by simp
  have norm: "\<forall>e i. (e, i) \<in> set (notifications (snd (retry fn options))) \<longrightarrow>
      (\<exists>x. fn i = Inl x \<and> to_Error x = Inr e)"
    using retry_loop_notified [OF le, of _ _ fn ?s] assms(1) by (simp add: retry_unfold)
  have after: "\<forall>pre e i post. snd (retry fn options) = pre @ OnRetry e i # post \<longrightarrow>
      (\<exists>pre'. pre = pre' @ [Invoke i])"
    using retry_loop_notify_after [of fn opts 1 ?s] assms(1) by (simp add: retry_unfold)
  from n(1) inv nots norm after show ?thesis
    unfolding mn by (simp add: comp_def)
qed

theorem onRetry_once_per_retried_attempt_witness:
  "1 \<le> maxAttempts (spread DEFAULT_OPTIONS notified_options) \<and>
   onRetry (spread DEFAULT_OPTIONS notified_options) = Some quiet_callback \<and>
   (\<forall>e i. quiet_callback e i = None) \<and>
   3 = length (invokes (snd (retry failing_op notified_options))) \<and>
   length (notifications (snd (retry failing_op notified_options))) = 3 - 1 \<and>
   map snd (notifications (snd (retry failing_op notified_options))) = [1..<3] \<and>
   notifications (snd (retry failing_op notified_options)) =
     [(Error ''!'', 1), (Error ''!!'', 2)] \<and>
   (\<exists>x. failing_op 2 = Inl x \<and> to_Error x = Inr (Error ''!!''))"
proof -
  have h2: "1 \<le> maxAttempts (spread DEFAULT_OPTIONS notified_options)"
    by (simp add: run_simps example_simps)
  have h3: "onRetry (spread DEFAULT_OPTIONS notified_options) = Some quiet_callback"
    by (simp add: run_simps example_simps)
  have h4: "\<forall>e i. quiet_callback e i = None"
    by (simp add: quiet_callback_def)
  have run: "snd (retry failing_op notified_options) =
      [Invoke 1, OnRetry (Error ''!'') 1, Sleep 1000, Invoke 2, OnRetry (Error ''!!'') 2,
       Sleep 2000, Invoke 3]"
    by (simp add: run_simps example_simps)
  have h5: "3 = length (invokes (snd (retry failing_op notified_options)))"
    by (simp add: run)
  have ns: "notifications (snd (retry failing_op notified_options)) =
      [(Error ''!'', 1), (Error ''!!'', 2)]"
    by (simp add: run)
  have mem: "(Error ''!!'', 2) \<in> set (notifications (snd (retry failing_op notified_options)))"
    by (simp add: ns)
  note t = onRetry_once_per_retried_attempt [OF refl h2 h3 h4 h5]
  from t have len: "length (notifications (snd (retry failing_op notified_options))) = 3 - 1"
    by blast
  from t have ms: "map snd (notifications (snd (retry failing_op notified_options))) = [1..<3]"
    by blast
  from t mem have ex: "\<exists>x. failing_op 2 = Inl x \<and> to_Error x = Inr (Error ''!!'')"
    by blast
  from h2 h3 h4 h5 len ms ns ex show ?thesis
    by (intro conjI)
qed

theorem onRetry_once_per_retried_attempt_counterexample:
  "opt_onRetry abort_options = Some throwing_callback \<and>
   length (invokes (snd (retry failing_op abort_options))) = 1 \<and>
   length (notifications (snd (retry failing_op abort_options))) = 1"
  by (simp add: run_simps example_simps)

subsection \<open>C4: the delay before an attempt\<close>

text \<open>
  C4: for every policy and every attempt \<open>i > 1\<close> that \<open>retry\<close> reaches, the delay slept
  before attempt \<open>i\<close> is \<open>min (delayMs * backoffMultiplier ^ (i - 2)) maxDelayMs\<close>: in
  the trace, the invocation of attempt \<open>i\<close> comes right after the sleep of that
  duration. With \<open>delayMs = 100\<close>, \<open>backoffMultiplier = 2\<close> (and \<open>maxDelayMs = 30000\<close>, the
  default) the delays before the attempts 2 and 3 are 100 and 200; with
  \<open>delayMs = 1000\<close>, \<open>backoffMultiplier = 10\<close>, \<open>maxDelayMs = 50\<close> every delay slept is 50.
\<close>

theorem delay_before_attempt:
  assumes "opts = spread DEFAULT_OPTIONS options"
  shows "(\<forall>pre i post. snd (retry fn options) = pre @ Invoke i # post \<and> 1 < i \<longrightarrow>
       (\<exists>pre'. pre = pre' @
          [Sleep (min (delayMs opts * backoffMultiplier opts ^ (i - 2)) (maxDelayMs opts))])) \<and>
    (delayMs opts = 100 \<and> backoffMultiplier opts = 2 \<and> maxDelayMs opts = 30000 \<longrightarrow>
       (\<forall>pre post. snd (retry fn options) = pre @ Invoke 2 # post \<longrightarrow>
          (\<exists>pre'. pre = pre' @ [Sleep 100])) \<and>
       (\<forall>pre post. snd (retry fn options) = pre @ Invoke 3 # post \<longrightarrow>
          (\<exists>pre'. pre = pre' @ [Sleep 200]))) \<and>
    (delayMs opts = 1000 \<and> backoffMultiplier opts = 10 \<and> maxDelayMs opts = 50 \<longrightarrow>
       (\<forall>d. Sleep d \<in> set (snd (retry fn options)) \<longrightarrow> d = 50))"
proof -
  have before: "\<exists>pre'. pre = pre' @ [Sleep (backoff_delay opts (i - 1))]"
    if "snd (retry fn options) = pre @ Invoke i # post" and "1 < i" for pre i post
    using retry_loop_sleep_before [of fn opts 1 "Error ''No attempts made''" pre i post] that assms
    by (simp add: retry_unfold)
  have general: "\<forall>pre i post. snd (retry fn options) = pre @ Invoke i # post \<and> 1 < i \<longrightarrow>
       (\<exists>pre'. pre = pre' @
          [Sleep (min (delayMs opts * backoffMultiplier opts ^ (i - 2)) (maxDelayMs opts))])"
  proof (intro allI impI)
    fix pre i post
    assume a: "snd (retry fn options) = pre @ Invoke i # post \<and> 1 < i"
    then have "i - 1 - 1 = i - 2" by simp
    with before [of pre i post] a show "\<exists>pre'. pre = pre' @
        [Sleep (min (delayMs opts * backoffMultiplier opts ^ (i - 2)) (maxDelayMs opts))]"
      by (simp add: backoff_delay_def)
  qed
  have doubled: "(\<forall>pre post. snd (retry fn options) = pre @ Invoke 2 # post \<longrightarrow>
          (\<exists>pre'. pre = pre' @ [Sleep 100])) \<and>
       (\<forall>pre post. snd (retry fn options) = pre @ Invoke 3 # post \<longrightarrow>
          (\<exists>pre'. pre = pre' @ [Sleep 200]))"
    if d: "delayMs opts = 100 \<and> backoffMultiplier opts = 2 \<and> maxDelayMs opts = 30000"
  proof -
    have two: "backoff_delay opts (2 - 1) = 100" and three: "backoff_delay opts (3 - 1) = 200"
      using d by (simp_all add: backoff_delay_def)
    show ?thesis
      using before [of _ 2] before [of _ 3] two three by simp
  qed
  have capped: "\<forall>d. Sleep d \<in> set (snd (retry fn options)) \<longrightarrow> d = 50"
    if c: "delayMs opts = 1000 \<and> backoffMultiplier opts = 10 \<and> maxDelayMs opts = 50"
  proof (intro allI impI)
    fix d assume "Sleep d \<in> set (snd (retry fn options))"
    then have "d \<in> set (sleeps (snd (retry fn options)))" by (simp add: Sleep_in_trace)
    with retry_sleeps [OF assms, of fn] obtain i where "d = backoff_delay opts i" by auto
    with c show "d = 50" by (simp add: capped_delay)
  qed
  from general doubled capped show ?thesis by blast
qed

theorem delay_before_attempt_witness:
  "snd (retry flaky_op backoff_options) = [Invoke 1, Sleep 100] @ Invoke 2 # [Sleep 200, Invoke 3] \<and>
   snd (retry flaky_op backoff_options) = [Invoke 1, Sleep 100, Invoke 2, Sleep 200] @ Invoke 3 # [] \<and>
   delayMs (spread DEFAULT_OPTIONS backoff_options) = 100 \<and>
   backoffMultiplier (spread DEFAULT_OPTIONS backoff_options) = 2 \<and>
   maxDelayMs (spread DEFAULT_OPTIONS backoff_options) = 30000 \<and>
   (\<exists>pre'. [Invoke 1, Sleep 100] = pre' @ [Sleep 100]) \<and>
   (\<exists>pre'. [Invoke 1, Sleep 100, Invoke 2, Sleep 200] = pre' @ [Sleep 200]) \<and>
   delayMs (spread DEFAULT_OPTIONS capped_options) = 1000 \<and>
   backoffMultiplier (spread DEFAULT_OPTIONS capped_options) = 10 \<and>
   maxDelayMs (spread DEFAULT_OPTIONS capped_options) = 50 \<and>
   Sleep 50 \<in> set (snd (retry flaky_op capped_options)) \<and>
   Sleep 1000 \<notin> set (snd (retry flaky_op capped_options))"
proof -
  have run2: "snd (retry flaky_op backoff_options) =
      [Invoke 1, Sleep 100] @ Invoke 2 # [Sleep 200, Invoke 3]"
    by (simp add: run_simps example_simps)
  have run3: "snd (retry flaky_op backoff_options) =
      [Invoke 1, Sleep 100, Invoke 2, Sleep 200] @ Invoke 3 # []"
    by (simp add: run_simps example_simps)
  have b: "delayMs (spread DEFAULT_OPTIONS backoff_options) = 100 \<and>
      backoffMultiplier (spread DEFAULT_OPTIONS backoff_options) = 2 \<and>
      maxDelayMs (spread DEFAULT_OPTIONS backoff_options) = 30000"
    by (simp add: run_simps example_simps)
  have c: "delayMs (spread DEFAULT_OPTIONS capped_options) = 1000 \<and>
      backoffMultiplier (spread DEFAULT_OPTIONS capped_options) = 10 \<and>
      maxDelayMs (spread DEFAULT_OPTIONS capped_options) = 50"
    by (simp add: run_simps example_simps)
  have run_capped: "snd (retry flaky_op capped_options) = [Invoke 1, Sleep 50, Invoke 2]"
    by (simp add: run_simps example_simps)
  have s50: "Sleep 50 \<in> set (snd (retry flaky_op capped_options))"
    by (simp add: run_capped)
  note t = delay_before_attempt [OF refl, of flaky_op backoff_options]
  note u = delay_before_attempt [OF refl, of flaky_op capped_options]
  from t b run2 have e2: "\<exists>pre'. [Invoke 1, Sleep 100] = pre' @ [Sleep 100]"
    by blast
  from t b run3 have e3: "\<exists>pre'. [Invoke 1, Sleep 100, Invoke 2, Sleep 200] = pre' @ [Sleep 200]"
    by blast
  from u c have "\<forall>d. Sleep d \<in> set (snd (retry flaky_op capped_options)) \<longrightarrow> d = 50"
    by blast
  then have n1000: "Sleep 1000 \<notin> set (snd (retry flaky_op capped_options))"
    by auto
  from run2 run3 b c e2 e3 s50 n1000 show ?thesis
    by (intro conjI) blast+
qed

subsection \<open>C5: an \<open>onRetry\<close> that throws\<close>

text \<open>
  C5, as stated: when \<open>onRetry\<close> throws, the loop is not aborted, \<open>retry\<close> goes on to
  the next attempt, and what it finally propagates is the failure of the operation,
  never that of the callback. The code calls \<open>onRetry\<close> at line 46 inside the \<open>catch\<close>
  block, with no \<open>try\<close> around the call, so the loop is aborted and the callback's
  failure is propagated (counterexample below).

  C5, amended: when \<open>onRetry\<close> throws, called after the failure of an attempt \<open>i\<close>
  that is not the last, the loop is aborted: \<open>retry\<close> propagates the value that
  \<open>onRetry\<close> threw, as it was thrown, whatever it is (the operation's failure only if
  that is what \<open>onRetry\<close> throws); the call of \<open>onRetry\<close> is the last thing the run
  does, so no delay is slept after it and the operation has been invoked exactly \<open>i\<close>
  times.
\<close>

theorem onRetry_failure_aborts:
  assumes "opts = spread DEFAULT_OPTIONS options"
    and "1 \<le> i" and "int i < maxAttempts opts"
    and "\<forall>j. 1 \<le> j \<and> j < i \<longrightarrow>
           (\<exists>x e. fn j = Inl x \<and> to_Error x = Inr e \<and> call_onRetry opts e j = None)"
    and "fn i = Inl x" and "to_Error x = Inr e" and "call_onRetry opts e i = Some y"
  shows "fst (retry fn options) = Inl y \<and>
    invokes (snd (retry fn options)) = [1..<Suc i] \<and>
    last (snd (retry fn options)) = OnRetry e i \<and>
    length (sleeps (snd (retry fn options))) = i - 1"
proof -
  let ?s = "Error ''No attempts made''"
  have all: "\<forall>j. 1 \<le> j \<and> j < i \<longrightarrow> retried fn opts j"
  proof (intro allI impI)
    fix j assume j: "1 \<le> j \<and> j < i"
    with assms(4) obtain z d where "fn j = Inl z" "to_Error z = Inr d"
        "call_onRetry opts d j = None"
      by blast
    moreover from j assms(3) have "int j \<noteq> maxAttempts opts" by simp
    ultimately show "retried fn opts j" by (auto simp: retried_iff)
  qed
  from assms(7) obtain cb where cb: "onRetry opts = Some cb"
    by (auto simp: call_onRetry_def split: option.splits)
  have le: "int i \<le> maxAttempts opts" using assms(3) by simp
  have last: "retry_loop fn opts i ?s = (Inl y, [Invoke i, OnRetry e i])"
    using retry_loop_abort [of i opts fn x e y ?s, OF assms(3,5,6,7)] cb
    by (simp add: notify_def)
  have run: "retry fn options = (Inl y, rounds fn opts 1 i @ [Invoke i, OnRetry e i])"
    using retry_upto [OF assms(1,2) le all] last by simp
  have inv: "invokes (snd (retry fn options)) = [1..<Suc i]"
    using assms(2) invokes_rounds [OF all] by (simp add: run invokes_append)
  have sl: "length (sleeps (snd (retry fn options))) = i - 1"
    using sleeps_rounds [OF all] by (simp add: run sleeps_append)
  from run inv sl show ?thesis by simp
qed

theorem onRetry_failure_aborts_witness:
  "(1::nat) \<le> 2 \<and> int 2 < maxAttempts (spread DEFAULT_OPTIONS late_options) \<and>
   failing_op 1 = Inl (VString ''!'') \<and> to_Error (VString ''!'') = Inr (Error ''!'') \<and>
   call_onRetry (spread DEFAULT_OPTIONS late_options) (Error ''!'') 1 = None \<and>
   failing_op 2 = Inl (VString ''!!'') \<and> to_Error (VString ''!!'') = Inr (Error ''!!'') \<and>
   call_onRetry (spread DEFAULT_OPTIONS late_options) (Error ''!!'') 2 =
     Some (VString ''give up'') \<and>
   fst (retry failing_op late_options) = Inl (VString ''give up'') \<and>
   invokes (snd (retry failing_op late_options)) = [1..<Suc 2] \<and>
   last (snd (retry failing_op late_options)) = OnRetry (Error ''!!'') 2 \<and>
   length (sleeps (snd (retry failing_op late_options))) = 2 - 1 \<and>
   flaky_op 1 = Inl (VError (Error ''fail 1'')) \<and>
   call_onRetry (spread DEFAULT_OPTIONS rethrow_options) (Error ''fail 1'') 1 =
     Some (VError (Error ''fail 1'')) \<and>
   fst (retry flaky_op rethrow_options) = Inl (VError (Error ''fail 1'')) \<and>
   last (snd (retry flaky_op rethrow_options)) = OnRetry (Error ''fail 1'') 1"
proof -
  have h2: "(1::nat) \<le> 2" by simp
  have h3: "int 2 < maxAttempts (spread DEFAULT_OPTIONS late_options)"
    by (simp add: run_simps example_simps)
  have f1: "failing_op 1 = Inl (VString ''!'')" and f2: "failing_op 2 = Inl (VString ''!!'')"
    by (simp_all add: failing_op_def numeral_2_eq_2)
  have e1: "to_Error (VString ''!'') = Inr (Error ''!'')"
    and e2: "to_Error (VString ''!!'') = Inr (Error ''!!'')"
    by (simp_all add: to_Error_def)
  have c1: "call_onRetry (spread DEFAULT_OPTIONS late_options) (Error ''!'') 1 = None"
    by (simp add: run_simps example_simps)
  have c2: "call_onRetry (spread DEFAULT_OPTIONS late_options) (Error ''!!'') 2 =
      Some (VString ''give up'')"
    by (simp add: run_simps example_simps)
  have h4: "\<forall>j. 1 \<le> j \<and> j < 2 \<longrightarrow>
      (\<exists>x e. failing_op j = Inl x \<and> to_Error x = Inr e \<and>
        call_onRetry (spread DEFAULT_OPTIONS late_options) e j = None)"
  proof (intro allI impI)
    fix j :: nat assume "1 \<le> j \<and> j < 2"
    then have "j = 1" by simp
    with f1 e1 c1 show "\<exists>x e. failing_op j = Inl x \<and> to_Error x = Inr e \<and>
        call_onRetry (spread DEFAULT_OPTIONS late_options) e j = None"
      by blast
  qed
  note t = onRetry_failure_aborts [OF refl h2 h3 h4 f2 e2 c2]
  have g0: "(1::nat) \<le> 1" by simp
  have g1: "int 1 < maxAttempts (spread DEFAULT_OPTIONS rethrow_options)"
    by (simp add: run_simps example_simps)
  have g2: "\<forall>j. 1 \<le> j \<and> j < 1 \<longrightarrow>
      (\<exists>x e. flaky_op j = Inl x \<and> to_Error x = Inr e \<and>
        call_onRetry (spread DEFAULT_OPTIONS rethrow_options) e j = None)"
    by auto
  have g3: "flaky_op 1 = Inl (VError (Error ''fail 1''))"
    by (simp add: flaky_op_def)
  have g4: "to_Error (VError (Error ''fail 1'')) = Inr (Error ''fail 1'')"
    by (simp add: to_Error_def)
  have g5: "call_onRetry (spread DEFAULT_OPTIONS rethrow_options) (Error ''fail 1'') 1 =
      Some (VError (Error ''fail 1''))"
    by (simp add: run_simps example_simps)
  note u = onRetry_failure_aborts [OF refl g0 g1 g2 g3 g4 g5]
  from t have t1: "fst (retry failing_op late_options) = Inl (VString ''give up'')"
    and t2: "invokes (snd (retry failing_op late_options)) = [1..<Suc 2]"
    and t3: "last (snd (retry failing_op late_options)) = OnRetry (Error ''!!'') 2"
    and t4: "length (sleeps (snd (retry failing_op late_options))) = 2 - 1"
    by blast+
  from u have u1: "fst (retry flaky_op rethrow_options) = Inl (VError (Error ''fail 1''))"
    and u2: "last (snd (retry flaky_op rethrow_options)) = OnRetry (Error ''fail 1'') 1"
    by blast+
  from h2 h3 f1 e1 c1 f2 e2 c2 t1 t2 t3 t4 g3 g5 u1 u2 show ?thesis
    by (intro conjI)
qed

theorem onRetry_failure_aborts_counterexample:
  "retry flaky_op abort_options =
     (Inl (VString ''callback failed''), [Invoke 1, OnRetry (Error ''fail 1'') 1]) \<and>
   flaky_op 1 = Inl (VError (Error ''fail 1'')) \<and>
   flaky_op 3 = Inr ''success''"
  by (simp add: run_simps example_simps)

subsection \<open>C6: \<open>isRetryableError\<close>\<close>

text \<open>
  C6: \<open>isRetryableError\<close> is false on every value that is not an \<open>Error\<close> (\<open>null\<close>,
  \<open>undefined\<close>, a string, any other value); on an \<open>Error\<close> it is true if and only if the
  message, in lower case, contains one of \<open>econnreset\<close>, \<open>etimedout\<close>, \<open>enotfound\<close>,
  \<open>rate limit\<close>, \<open>timeout\<close>, \<open>network\<close>. So it is true for the messages \<open>ECONNRESET\<close>,
  \<open>ETIMEDOUT\<close>, \<open>Rate limit exceeded\<close>, \<open>Network timeout\<close> and false for
  \<open>Invalid input\<close> and \<open>Not found\<close>.
\<close>

theorem isRetryableError_iff:
  "(isRetryableError error \<longleftrightarrow>
      (\<exists>e. error = VError e \<and>
         (\<exists>t \<in> set [''econnreset'', ''etimedout'', ''enotfound'', ''rate limit'', ''timeout'',
                      ''network''].
            \<exists>p q. toLowerCase (message e) = p @ t @ q))) \<and>
   \<not> isRetryableError VNull \<and> \<not> isRetryableError VUndefined \<and>
   \<not> isRetryableError (VString s) \<and> \<not> isRetryableError (VBoolean b) \<and>
   \<not> isRetryableError (VOther s) \<and>
   isRetryableError (VError (Error ''ECONNRESET'')) \<and>
   isRetryableError (VError (Error ''ETIMEDOUT'')) \<and>
   isRetryableError (VError (Error ''Rate limit exceeded'')) \<and>
   isRetryableError (VError (Error ''Network timeout'')) \<and>
   \<not> isRetryableError (VError (Error ''Invalid input'')) \<and>
   \<not> isRetryableError (VError (Error ''Not found''))"
proof -
  have codes: "list_ex (\<lambda>code. includes_js m (toLowerCase code)) retryableCodes \<longleftrightarrow>
      (\<exists>t \<in> set [''econnreset'', ''etimedout'', ''enotfound'']. includes_js m t)" for m
    using toLowerCase_codes by (simp add: list_ex_iff retryableCodes_def)
  have iff: "isRetryableError error \<longleftrightarrow>
      (\<exists>e. error = VError e \<and>
         (\<exists>t \<in> set [''econnreset'', ''etimedout'', ''enotfound'', ''rate limit'', ''timeout'',
                      ''network''].
            \<exists>p q. toLowerCase (message e) = p @ t @ q))"
  proof (cases error)
    case (VError e)
    have "isRetryableError (VError e) \<longleftrightarrow>
        (\<exists>t \<in> set [''econnreset'', ''etimedout'', ''enotfound'', ''rate limit'', ''timeout'',
                     ''network''].
           includes_js (toLowerCase (message e)) t)"
      by (simp add: isRetryableError_def Let_def codes)
    also have "\<dots> \<longleftrightarrow>
        (\<exists>t \<in> set [''econnreset'', ''etimedout'', ''enotfound'', ''rate limit'', ''timeout'',
                     ''network''].
           \<exists>p q. toLowerCase (message e) = p @ t @ q)"
      by (simp only: includes_js_iff)
    finally show ?thesis using VError by simp
  qed (simp_all add: isRetryableError_def)
  have ex: "isRetryableError (VError (Error ''ECONNRESET''))"
    "isRetryableError (VError (Error ''ETIMEDOUT''))"
    "isRetryableError (VError (Error ''Rate limit exceeded''))"
    "isRetryableError (VError (Error ''Network timeout''))"
    "\<not> isRetryableError (VError (Error ''Invalid input''))"
    "\<not> isRetryableError (VError (Error ''Not found''))"
    by (simp_all add: isRetryableError_def retryableCodes_def toLowerCase_def
        toLowerCase_char_def char_of_def bit_Suc_0_iff)
  have non: "\<not> isRetryableError VNull" "\<not> isRetryableError VUndefined"
    "\<not> isRetryableError (VString s)" "\<not> isRetryableError (VBoolean b)"
    "\<not> isRetryableError (VOther s)"
    by (simp_all add: isRetryableError_def)
  from iff ex non show ?thesis by (intro conjI)
qed

theorem isRetryableError_iff_witness:
  "toLowerCase (message (Error ''Request TIMEOUT (504)'')) = ''request '' @ ''timeout'' @ '' (504)'' \<and>
   isRetryableError (VError (Error ''Request TIMEOUT (504)'')) \<and>
   \<not> isRetryableError (VString ''ECONNRESET'')"
proof -
  have low: "toLowerCase (message (Error ''Request TIMEOUT (504)'')) =
      ''request '' @ ''timeout'' @ '' (504)''"
    by (simp add: toLowerCase_def toLowerCase_char_def char_of_def bit_Suc_0_iff)
  then have "\<exists>t \<in> set [''econnreset'', ''etimedout'', ''enotfound'', ''rate limit'', ''timeout'',
        ''network''].
      \<exists>p q. toLowerCase (message (Error ''Request TIMEOUT (504)'')) = p @ t @ q"
    by (intro bexI [of _ "''timeout''"] exI [of _ "''request ''"] exI [of _ "'' (504)''"]) simp_all
  with isRetryableError_iff [of "VError (Error ''Request TIMEOUT (504)'')" "''ECONNRESET''"] low
  show ?thesis by blast
qed

subsection \<open>C7: a single attempt\<close>




subsection \<open>C8: normalized failures\<close>




subsection \<open>C9: the effective options\<close>

text \<open>
  C9: the options \<open>retry\<close> runs with are formed field by field: a field that the
  caller supplies is used, a field left out takes its default (\<open>maxAttempts = 3\<close>,
  \<open>delayMs = 1000\<close>, \<open>backoffMultiplier = 2\<close>, \<open>maxDelayMs = 30000\<close>, no \<open>onRetry\<close>); with
  no options at all, \<open>retry\<close> runs with exactly the defaults.
\<close>

theorem retry_effective_options:
  "retry fn options =
     retry_loop fn
       \<lparr>maxAttempts = (case opt_maxAttempts options of None \<Rightarrow> 3 | Some v \<Rightarrow> v),
        delayMs = (case opt_delayMs options of None \<Rightarrow> 1000 | Some v \<Rightarrow> v),
        backoffMultiplier = (case opt_backoffMultiplier options of None \<Rightarrow> 2 | Some v \<Rightarrow> v),
        maxDelayMs = (case opt_maxDelayMs options of None \<Rightarrow> 30000 | Some v \<Rightarrow> v),
        onRetry = opt_onRetry options\<rparr>
       1 (Error ''No attempts made'') \<and>
   retry fn no_options =
     retry_loop fn
       \<lparr>maxAttempts = 3, delayMs = 1000, backoffMultiplier = 2, maxDelayMs = 30000,
        onRetry = None\<rparr>
       1 (Error ''No attempts made'')"
proof -
  have merged: "spread DEFAULT_OPTIONS options =
      \<lparr>maxAttempts = (case opt_maxAttempts options of None \<Rightarrow> 3 | Some v \<Rightarrow> v),
       delayMs = (case opt_delayMs options of None \<Rightarrow> 1000 | Some v \<Rightarrow> v),
       backoffMultiplier = (case opt_backoffMultiplier options of None \<Rightarrow> 2 | Some v \<Rightarrow> v),
       maxDelayMs = (case opt_maxDelayMs options of None \<Rightarrow> 30000 | Some v \<Rightarrow> v),
       onRetry = opt_onRetry options\<rparr>"
    by (simp add: spread_def DEFAULT_OPTIONS_def split: option.splits)
  have plain: "spread DEFAULT_OPTIONS no_options =
      \<lparr>maxAttempts = 3, delayMs = 1000, backoffMultiplier = 2, maxDelayMs = 30000,
       onRetry = None\<rparr>"
    by (simp add: spread_def DEFAULT_OPTIONS_def no_options_def)
  show ?thesis
    unfolding retry_unfold merged [symmetric] plain [symmetric] by simp
qed

theorem retry_effective_options_witness:
  "retry flaky_op capped_options =
     retry_loop flaky_op
       \<lparr>maxAttempts = 2, delayMs = 1000, backoffMultiplier = 10, maxDelayMs = 50,
        onRetry = None\<rparr>
       1 (Error ''No attempts made'') \<and>
   retry flaky_op (no_options\<lparr>opt_delayMs := Some 10\<rparr>) =
     retry_loop flaky_op
       \<lparr>maxAttempts = 3, delayMs = 10, backoffMultiplier = 2, maxDelayMs = 30000,
        onRetry = None\<rparr>
       1 (Error ''No attempts made'')"
  using retry_effective_options [of flaky_op capped_options]
    retry_effective_options [of flaky_op "no_options\<lparr>opt_delayMs := Some 10\<rparr>"]
  by (simp add: capped_options_def no_options_def)

subsection \<open>C10: the sentinel error\<close>




end
